theory Spec2Isabelle
  imports Main
begin

section \<open>The data model of \<open>src/index.ts\<close>\<close>

text \<open>
  Strings are lists of code units below 256. The model is exact on the ASCII range. Of
  the code units from 128 on, the no-break space is white space for \<open>parseInt\<close>, and
  \<open>toUpperCase\<close> leaves all of them as they are, where JavaScript maps the lower-case
  letters among them. Values of TypeScript's type \<open>number\<close> that stand for a priority are
  integers, as in the registry of the source; \<open>NaN\<close>, the one non-integer the constructor
  can meet, is the value \<open>None\<close> of \<open>parseInt\<close>.
\<close>

datatype LogScope = STDOUT | STDERR

text \<open>
  A \<open>Chalk\<close> is a chain of styles, \<open>chalk.red.bold\<close> being \<open>[Red, Bold]\<close>. What a chain
  does to a text belongs to the chalk library and is a parameter of the model (field
  \<open>chalk\<close> of the record \<open>Host\<close> below).
\<close>

datatype Style = Red | Yellow | Green | Blue | Gray | Bold

type_synonym Chalk = "Style list"

record LogLevel =
  name :: string
  color :: Chalk
  priority :: int
  scope :: LogScope

text \<open>
  The collaborators the class calls: \<open>moment().format(pattern)\<close>, which renders the
  wall-clock time of the call, and the application of a chalk style to a text. One
  \<open>Host\<close> stands for one instant of the wall clock.
\<close>

record Host =
  moment_format :: "string \<Rightarrow> string"
  chalk :: "Chalk \<Rightarrow> string \<Rightarrow> string"

text \<open>
  All the mutable state the methods can reach: the lines written so far with
  \<open>console.log\<close> and \<open>console.error\<close>, which are there before a logger is made, and
  the two private fields of the class.
\<close>

record Console =
  stdout :: "string list"
  stderr :: "string list"

record State = Console +
  logLevel :: LogLevel
  timeFormat :: string

section \<open>The level registry\<close>

definition logLevels :: "LogLevel list" where
  "logLevels =
     [ \<lparr>name = ''error'', color = [Red, Bold], priority = 0, scope = STDERR\<rparr>,
       \<lparr>name = ''warn'', color = [Yellow, Bold], priority = 1, scope = STDERR\<rparr>,
       \<lparr>name = ''info'', color = [Green, Bold], priority = 2, scope = STDOUT\<rparr>,
       \<lparr>name = ''debug'', color = [Blue, Bold], priority = 3, scope = STDOUT\<rparr> ]"

text \<open>
  \<open>Array.prototype.findIndex\<close>: the index of the first element that satisfies the
  predicate, \<open>-1\<close> when there is none.
\<close>

fun findIndexFrom :: "int \<Rightarrow> ('a \<Rightarrow> bool) \<Rightarrow> 'a list \<Rightarrow> int" where
  "findIndexFrom i p [] = - 1"
| "findIndexFrom i p (x # xs) = (if p x then i else findIndexFrom (i + 1) p xs)"

definition findIndex :: "('a \<Rightarrow> bool) \<Rightarrow> 'a list \<Rightarrow> int" where
  "findIndex p xs = findIndexFrom 0 p xs"

text \<open>
  Reading \<open>xs[i]\<close>: the element, or \<open>undefined\<close> (here \<open>None\<close>) when \<open>i\<close> is not an index
  of the array, as it is for the \<open>-1\<close> of \<open>findIndex\<close>. It never throws.
\<close>

definition at_index :: "'a list \<Rightarrow> int \<Rightarrow> 'a option" where
  "at_index xs i = (if 0 \<le> i \<and> i < int (length xs) then Some (xs ! nat i) else None)"

text \<open>\<open>readonly defaultLogLevel: LogLevel = this.logLevels[2]\<close>\<close>

definition defaultLogLevel :: LogLevel where
  "defaultLogLevel = logLevels ! 2"

definition getLogLevelByName :: "string \<Rightarrow> LogLevel option" where
  "getLogLevelByName n = at_index logLevels (findIndex (\<lambda>l. name l = n) logLevels)"

definition getLogLevelByPriority :: "int \<Rightarrow> LogLevel option" where
  "getLogLevelByPriority p = at_index logLevels (findIndex (\<lambda>l. priority l = p) logLevels)"

section \<open>The setters\<close>

definition setLogLevel :: "LogLevel \<Rightarrow> State \<Rightarrow> State" where
  "setLogLevel level s = s\<lparr>logLevel := level\<rparr>"

definition setTimeFormat :: "string \<Rightarrow> State \<Rightarrow> State" where
  "setTimeFormat fmt s = s\<lparr>timeFormat := fmt\<rparr>"

section \<open>The human-readable formatter\<close>

text \<open>
  \<open>String.prototype.toUpperCase\<close> on the ASCII range: the letters \<open>a\<close> to \<open>z\<close> go to
  \<open>A\<close> to \<open>Z\<close>, every other code unit stays.
\<close>

definition toUpperCase_unit :: "char \<Rightarrow> char" where
  "toUpperCase_unit c =
     (case map_of (zip ''abcdefghijklmnopqrstuvwxyz'' ''ABCDEFGHIJKLMNOPQRSTUVWXYZ'') c of
        Some u \<Rightarrow> u
      | None \<Rightarrow> c)"

definition toUpperCase :: "string \<Rightarrow> string" where
  "toUpperCase s = map toUpperCase_unit s"

text \<open>
  \<open>format(level, message, notime?)\<close>; an omitted \<open>notime\<close> is \<open>undefined\<close>, which is
  falsy, so it is \<open>False\<close> here. The time is computed in both cases, as in the source.
\<close>

definition format :: "Host \<Rightarrow> LogLevel \<Rightarrow> string \<Rightarrow> bool \<Rightarrow> State \<Rightarrow> string" where
  "format h level message notime s =
     (let time = moment_format h (timeFormat s);
          line = chalk h (color level) (toUpperCase (name level)) @ '' '' @ message
      in if \<not> notime then ''['' @ chalk h [Gray] time @ ''] '' @ line else line)"

section \<open>The JSON formatter\<close>

text \<open>
  The values \<open>JSON.stringify\<close> meets in \<open>formatJson\<close>: strings, numbers, plain objects
  (their own enumerable properties in creation order) and the chalk instance of a level,
  which is a function.
\<close>

datatype JSValue =
    JSString string
  | JSNumber int
  | JSFunction
  | JSObject "(string \<times> JSValue) list"

text \<open>
  \<open>QuoteJSONString\<close> of ECMAScript: the double quote and the backslash are escaped,
  the control characters below \<open>0x20\<close> get their short escape or \<open>\u00XX\<close> in lowercase
  hexadecimal, every other code unit stands for itself.
\<close>

definition hexDigit :: "nat \<Rightarrow> char" where
  "hexDigit n = ''0123456789abcdef'' ! n"

definition QuoteJSONUnit :: "char \<Rightarrow> string" where
  "QuoteJSONUnit c =
     (if c = CHR 0x08 then [CHR 0x5C, CHR ''b'']
      else if c = CHR 0x09 then [CHR 0x5C, CHR ''t'']
      else if c = CHR 0x0A then [CHR 0x5C, CHR ''n'']
      else if c = CHR 0x0C then [CHR 0x5C, CHR ''f'']
      else if c = CHR 0x0D then [CHR 0x5C, CHR ''r'']
      else if c = CHR 0x22 then [CHR 0x5C, CHR 0x22]
      else if c = CHR 0x5C then [CHR 0x5C, CHR 0x5C]
      else if (of_char c :: nat) < 32 then
        [CHR 0x5C, CHR ''u'', CHR ''0'', CHR ''0'',
         hexDigit ((of_char c :: nat) div 16), hexDigit ((of_char c :: nat) mod 16)]
      else [c])"

definition QuoteJSONString :: "string \<Rightarrow> string" where
  "QuoteJSONString v = [CHR 0x22] @ concat (map QuoteJSONUnit v) @ [CHR 0x22]"

text \<open>\<open>Number::toString\<close> on an integer (below \<open>10^21\<close> in size): its decimal digits.\<close>

fun decimalDigits :: "nat \<Rightarrow> string" where
  "decimalDigits n =
     (if n < 10 then [hexDigit n] else decimalDigits (n div 10) @ [hexDigit (n mod 10)])"

declare decimalDigits.simps [simp del]

definition NumberToString :: "int \<Rightarrow> string" where
  "NumberToString n = (if n < 0 then ''-'' @ decimalDigits (nat (- n)) else decimalDigits (nat n))"

fun join :: "string \<Rightarrow> string list \<Rightarrow> string" where
  "join sep [] = []"
| "join sep [x] = x"
| "join sep (x # y # ys) = x @ sep @ join sep (y # ys)"

text \<open>
  \<open>SerializeJSONProperty\<close> and \<open>SerializeJSONObject\<close> of ECMAScript, without indentation:
  a function serializes to \<open>undefined\<close> (\<open>None\<close>), and a property whose value does is
  left out of its object.
\<close>

fun SerializeJSONProperty :: "JSValue \<Rightarrow> string option"
  and SerializeJSONObject :: "(string \<times> JSValue) list \<Rightarrow> string"
  and SerializeJSONMembers :: "(string \<times> JSValue) list \<Rightarrow> string list" where
  "SerializeJSONProperty (JSString v) = Some (QuoteJSONString v)"
| "SerializeJSONProperty (JSNumber n) = Some (NumberToString n)"
| "SerializeJSONProperty JSFunction = None"
| "SerializeJSONProperty (JSObject ps) = Some (SerializeJSONObject ps)"
| "SerializeJSONObject ps = ''{'' @ join '','' (SerializeJSONMembers ps) @ ''}''"
| "SerializeJSONMembers [] = []"
| "SerializeJSONMembers ((k, v) # ps) =
     (case SerializeJSONProperty v of
        None \<Rightarrow> SerializeJSONMembers ps
      | Some str \<Rightarrow> (QuoteJSONString k @ '':'' @ str) # SerializeJSONMembers ps)"

text \<open>The string values of \<open>enum LogScope\<close>.\<close>

fun LogScope_value :: "LogScope \<Rightarrow> string" where
  "LogScope_value STDOUT = ''stdout''"
| "LogScope_value STDERR = ''stderr''"

text \<open>A \<open>LogLevel\<close> instance as \<open>JSON.stringify\<close> sees it: its four fields, in the order the
  constructor of the class assigns them.\<close>

definition LogLevel_object :: "LogLevel \<Rightarrow> JSValue" where
  "LogLevel_object level =
     JSObject [(''name'', JSString (name level)), (''color'', JSFunction),
               (''priority'', JSNumber (priority level)),
               (''scope'', JSString (LogScope_value (scope level)))]"

definition formatJson :: "Host \<Rightarrow> LogLevel \<Rightarrow> string \<Rightarrow> State \<Rightarrow> string" where
  "formatJson h level message s =
     (let time = moment_format h ''HH:mm:ss'';
          line = SerializeJSONObject
                   [(''time'', JSString time), (''level'', LogLevel_object level),
                    (''message'', JSString message)]
      in line)"

section \<open>Logging\<close>

text \<open>
  \<open>log(level, message, json?)\<close> returns the line, or \<open>undefined\<close> (\<open>None\<close>) when the function
  falls off its end. \<open>console.error\<close> and \<open>console.log\<close> append the line to their stream.
\<close>

definition log :: "Host \<Rightarrow> LogLevel \<Rightarrow> string \<Rightarrow> bool \<Rightarrow> State \<Rightarrow> string option \<times> State" where
  "log h level message json s =
     (if priority (logLevel s) \<ge> priority level then
        let line = (if json then formatJson h level message s
                    else format h level message False s)
        in (Some line,
            if scope level = STDERR then s\<lparr>stderr := stderr s @ [line]\<rparr>
            else s\<lparr>stdout := stdout s @ [line]\<rparr>)
      else (None, s))"

text \<open>
  The four \<open>async\<close> wrappers run \<open>log\<close> to its end at the call; the promise they return
  is resolved with the value of \<open>log\<close>, which is the result here.
\<close>

definition error :: "Host \<Rightarrow> string \<Rightarrow> bool \<Rightarrow> State \<Rightarrow> string option \<times> State" where
  "error h message json s = log h (logLevels ! 0) message json s"

definition warn :: "Host \<Rightarrow> string \<Rightarrow> bool \<Rightarrow> State \<Rightarrow> string option \<times> State" where
  "warn h message json s = log h (logLevels ! 1) message json s"

definition info :: "Host \<Rightarrow> string \<Rightarrow> bool \<Rightarrow> State \<Rightarrow> string option \<times> State" where
  "info h message json s = log h (logLevels ! 2) message json s"

definition debug :: "Host \<Rightarrow> string \<Rightarrow> bool \<Rightarrow> State \<Rightarrow> string option \<times> State" where
  "debug h message json s = log h (logLevels ! 3) message json s"

section \<open>Construction\<close>

text \<open>
  \<open>parseInt(string)\<close> of ECMAScript with no radix: leading white space is skipped, one sign
  is read, the prefix \<open>0x\<close> or \<open>0X\<close> selects radix 16 (radix 10 otherwise), and the longest
  run of digits of that radix is the number; what follows the run is ignored. With no
  digit the result is \<open>NaN\<close>, here \<open>None\<close>. The source only compares the result with the
  priorities 0 to 3, and the double that ECMAScript rounds a large integer to equals one
  of them exactly when the integer does, so the integer stands for the double.
\<close>

definition isWhiteSpace :: "char \<Rightarrow> bool" where
  "isWhiteSpace c \<longleftrightarrow> c \<in> set [CHR 0x09, CHR 0x0A, CHR 0x0B, CHR 0x0C, CHR 0x0D, CHR 0x20, CHR 0xA0]"

definition digitValue :: "char \<Rightarrow> nat option" where
  "digitValue c =
     map_of [(CHR ''0'', 0), (CHR ''1'', 1), (CHR ''2'', 2), (CHR ''3'', 3), (CHR ''4'', 4),
             (CHR ''5'', 5), (CHR ''6'', 6), (CHR ''7'', 7), (CHR ''8'', 8), (CHR ''9'', 9),
             (CHR ''a'', 10), (CHR ''b'', 11), (CHR ''c'', 12), (CHR ''d'', 13),
             (CHR ''e'', 14), (CHR ''f'', 15),
             (CHR ''A'', 10), (CHR ''B'', 11), (CHR ''C'', 12), (CHR ''D'', 13),
             (CHR ''E'', 14), (CHR ''F'', 15)] c"

text \<open>The values of the longest prefix made of digits of radix \<open>R\<close> (\<open>R\<close> is 10 or 16).\<close>

fun radixDigits :: "nat \<Rightarrow> string \<Rightarrow> nat list" where
  "radixDigits R [] = []"
| "radixDigits R (c # cs) =
     (case digitValue c of
        None \<Rightarrow> []
      | Some d \<Rightarrow> if d < R then d # radixDigits R cs else [])"

definition parseInt :: "string \<Rightarrow> int option" where
  "parseInt inputString =
     (let S = dropWhile isWhiteSpace inputString;
          sign = (if S \<noteq> [] \<and> hd S = CHR ''-'' then - 1 else 1 :: int);
          S = (if S \<noteq> [] \<and> (hd S = CHR ''+'' \<or> hd S = CHR ''-'') then tl S else S);
          stripPrefix = (length S \<ge> 2 \<and> (take 2 S = ''0x'' \<or> take 2 S = ''0X''));
          R = (if stripPrefix then 16 else 10);
          S = (if stripPrefix then drop 2 S else S);
          Z = radixDigits R S
      in if Z = [] then None
         else Some (sign * int (foldl (\<lambda>mathInt d. mathInt * R + d) 0 Z)))"

text \<open>
  The constructor. \<open>LOG_LEVEL\<close> is \<open>process.env.LOG_LEVEL\<close>: \<open>None\<close> when the variable is not
  set; the empty string is falsy like \<open>undefined\<close>. A level object is truthy and
  \<open>undefined\<close> is falsy, which is the case distinction on the result of a lookup. The
  field initializer gives \<open>timeFormat\<close> its value before the body runs.
\<close>

definition Logger_constructor :: "Host \<Rightarrow> string option \<Rightarrow> Console \<Rightarrow> State" where
  "Logger_constructor h LOG_LEVEL c =
     (let level =
            (case LOG_LEVEL of
               None \<Rightarrow> defaultLogLevel
             | Some v \<Rightarrow>
                 if v = [] then defaultLogLevel
                 else (case parseInt v of
                         None \<Rightarrow>
                           (case getLogLevelByName v of
                              None \<Rightarrow> defaultLogLevel
                            | Some levelFromName \<Rightarrow> levelFromName)
                       | Some n \<Rightarrow>
                           (case getLogLevelByPriority n of
                              None \<Rightarrow> defaultLogLevel
                            | Some levelFromNum \<Rightarrow> levelFromNum)));
          s = \<lparr>stdout = stdout c, stderr = stderr c,
               logLevel = level, timeFormat = ''HH:mm:ss''\<rparr>
      in snd (debug h (''Using log level: '' @ name level) False s))"

section \<open>A reader for the JSON text of \<open>formatJson\<close>\<close>

text \<open>
  The reference against which the output of \<open>formatJson\<close> is judged: a reader of the
  JSON grammar (RFC 8259) for texts made of objects, strings and integers with no
  insignificant white space. A string may hold any escape of the grammar; an escape
  \<open>\uXXXX\<close> is decoded when its code unit is below 256. An integer has no leading zero.
  The first argument of \<open>readValue\<close> bounds the nesting that is followed; \<open>JSON_parse\<close>
  gives it the length of the text, which no nesting exceeds.
\<close>

definition unescape :: "char \<Rightarrow> char option" where
  "unescape e =
     map_of [(CHR 0x22, CHR 0x22), (CHR 0x5C, CHR 0x5C), (CHR ''/'', CHR ''/''),
             (CHR ''b'', CHR 0x08), (CHR ''f'', CHR 0x0C), (CHR ''n'', CHR 0x0A),
             (CHR ''r'', CHR 0x0D), (CHR ''t'', CHR 0x09)] e"

definition readHex4 :: "char \<Rightarrow> char \<Rightarrow> char \<Rightarrow> char \<Rightarrow> char option" where
  "readHex4 a b c d =
     (case (digitValue a, digitValue b, digitValue c, digitValue d) of
        (Some w, Some x, Some y, Some z) \<Rightarrow>
          (let code = ((w * 16 + x) * 16 + y) * 16 + z
           in if code < 256 then Some (char_of code) else None)
      | _ \<Rightarrow> None)"

text \<open>The characters of a string after its opening quote, up to the closing one.\<close>

fun readChars :: "string \<Rightarrow> (string \<times> string) option" where
  "readChars [] = None"
| "readChars (c # cs) =
     (if c = CHR 0x22 then Some ([], cs)
      else if c = CHR 0x5C then
        (case cs of
           [] \<Rightarrow> None
         | e # es \<Rightarrow>
             if e = CHR ''u'' then
               (case es of
                  a # b # c' # d # rest \<Rightarrow>
                    (case readHex4 a b c' d of
                       None \<Rightarrow> None
                     | Some x \<Rightarrow> map_option (apfst ((#) x)) (readChars rest))
                | _ \<Rightarrow> None)
             else
               (case unescape e of
                  None \<Rightarrow> None
                | Some x \<Rightarrow> map_option (apfst ((#) x)) (readChars es)))
      else if (of_char c :: nat) < 32 then None
      else map_option (apfst ((#) c)) (readChars cs))"

declare readChars.simps [simp del]

definition readNumber :: "string \<Rightarrow> (int \<times> string) option" where
  "readNumber s =
     (let neg = (s \<noteq> [] \<and> hd s = CHR ''-'');
          body = (if neg then tl s else s);
          Z = radixDigits 10 body
      in if Z = [] \<or> (length Z > 1 \<and> hd Z = 0) then None
         else Some ((if neg then - 1 else 1) * int (foldl (\<lambda>m d. m * 10 + d) 0 Z),
                    drop (length Z) body))"

fun readValue :: "nat \<Rightarrow> string \<Rightarrow> (JSValue \<times> string) option"
  and readMembers :: "nat \<Rightarrow> string \<Rightarrow> ((string \<times> JSValue) list \<times> string) option" where
  "readValue 0 s = None"
| "readValue (Suc n) [] = None"
| "readValue (Suc n) (c # cs) =
     (if c = CHR 0x22 then map_option (apfst JSString) (readChars cs)
      else if c = CHR ''{'' then
        (if cs \<noteq> [] \<and> hd cs = CHR ''}'' then Some (JSObject [], tl cs)
         else map_option (apfst JSObject) (readMembers n cs))
      else map_option (apfst JSNumber) (readNumber (c # cs)))"
| "readMembers 0 s = None"
| "readMembers (Suc n) [] = None"
| "readMembers (Suc n) (c # cs) =
     (if c \<noteq> CHR 0x22 then None
      else
        (case readChars cs of
           None \<Rightarrow> None
         | Some (k, r1) \<Rightarrow>
             if r1 = [] \<or> hd r1 \<noteq> CHR '':'' then None
             else
               (case readValue n (tl r1) of
                  None \<Rightarrow> None
                | Some (v, r2) \<Rightarrow>
                    if r2 = [] then None
                    else if hd r2 = CHR ''}'' then Some ([(k, v)], tl r2)
                    else if hd r2 = CHR '','' then
                      map_option (apfst ((#) (k, v))) (readMembers n (tl r2))
                    else None)))"

definition JSON_parse :: "string \<Rightarrow> JSValue option" where
  "JSON_parse text =
     (case readValue (length text) text of
        Some (v, []) \<Rightarrow> Some v
      | _ \<Rightarrow> None)"

section \<open>Calls of the public methods\<close>

text \<open>
  One call of a public method of a \<open>Logger\<close>, with what it returns and the state it
  leaves. The lookups and the formatters assign to nothing.
\<close>

datatype Call =
    SetLogLevel LogLevel
  | SetTimeFormat string
  | GetLogLevelByName string
  | GetLogLevelByPriority int
  | Format LogLevel string bool
  | FormatJson LogLevel string
  | Log LogLevel string bool
  | Error string bool
  | Warn string bool
  | Info string bool
  | Debug string bool

datatype Returned =
    Void
  | Level "LogLevel option"
  | Text string
  | Line "string option"

fun invoke :: "Host \<Rightarrow> Call \<Rightarrow> State \<Rightarrow> Returned \<times> State" where
  "invoke h (SetLogLevel level) s = (Void, setLogLevel level s)"
| "invoke h (SetTimeFormat fmt) s = (Void, setTimeFormat fmt s)"
| "invoke h (GetLogLevelByName n) s = (Level (getLogLevelByName n), s)"
| "invoke h (GetLogLevelByPriority p) s = (Level (getLogLevelByPriority p), s)"
| "invoke h (Format level message notime) s = (Text (format h level message notime s), s)"
| "invoke h (FormatJson level message) s = (Text (formatJson h level message s), s)"
| "invoke h (Log level message json) s = apfst Line (log h level message json s)"
| "invoke h (Error message json) s = apfst Line (error h message json s)"
| "invoke h (Warn message json) s = apfst Line (warn h message json s)"
| "invoke h (Info message json) s = apfst Line (info h message json s)"
| "invoke h (Debug message json) s = apfst Line (debug h message json s)"

section \<open>The registry and its lookups\<close>

lemma logLevels_nth:
  "logLevels ! 0 = \<lparr>name = ''error'', color = [Red, Bold], priority = 0, scope = STDERR\<rparr>"
  "logLevels ! 1 = \<lparr>name = ''warn'', color = [Yellow, Bold], priority = 1, scope = STDERR\<rparr>"
  "logLevels ! 2 = \<lparr>name = ''info'', color = [Green, Bold], priority = 2, scope = STDOUT\<rparr>"
  "logLevels ! 3 = \<lparr>name = ''debug'', color = [Blue, Bold], priority = 3, scope = STDOUT\<rparr>"
  "logLevels ! Suc 0 = \<lparr>name = ''warn'', color = [Yellow, Bold], priority = 1, scope = STDERR\<rparr>"
  by (simp_all add: logLevels_def)

lemma logLevels_cases:
  "l \<in> set logLevels \<longleftrightarrow>
     l = logLevels ! 0 \<or> l = logLevels ! 1 \<or> l = logLevels ! 2 \<or> l = logLevels ! 3"
  by (auto simp add: logLevels_def)

lemma findIndex_names:
  "findIndex (\<lambda>l. name l = n) logLevels =
     (if n = ''error'' then 0 else if n = ''warn'' then 1 else if n = ''info'' then 2
      else if n = ''debug'' then 3 else - 1)"
proof -
  consider "n = ''error''" | "n = ''warn''" | "n = ''info''" | "n = ''debug''"
    | "''error'' \<noteq> n" "''warn'' \<noteq> n" "''info'' \<noteq> n" "''debug'' \<noteq> n"
    by blast
  then show ?thesis
  proof cases
    case 1
    then show ?thesis by (simp add: findIndex_def logLevels_def)
  next
    case 2
    then show ?thesis by (simp add: findIndex_def logLevels_def)
  next
    case 3
    then show ?thesis by (simp add: findIndex_def logLevels_def)
  next
    case 4
    then show ?thesis by (simp add: findIndex_def logLevels_def)
  next
    case 5
    have "findIndex (\<lambda>l. name l = n) logLevels = - 1"
      using 5 by (simp only: findIndex_def logLevels_def findIndexFrom.simps LogLevel.simps if_False)
    moreover have "n \<noteq> ''error''" "n \<noteq> ''warn''" "n \<noteq> ''info''" "n \<noteq> ''debug''"
      using 5 by blast+
    ultimately show ?thesis by (simp only: if_False)
  qed
qed

lemma at_index_logLevels:
  "at_index logLevels 0 = Some (logLevels ! 0)" "at_index logLevels 1 = Some (logLevels ! 1)"
  "at_index logLevels 2 = Some (logLevels ! 2)" "at_index logLevels 3 = Some (logLevels ! 3)"
  "at_index logLevels (- 1) = None"
  by (simp_all add: at_index_def logLevels_def)

lemma getLogLevelByName_eq:
  "getLogLevelByName n =
     (if n = ''error'' then Some (logLevels ! 0)
      else if n = ''warn'' then Some (logLevels ! 1)
      else if n = ''info'' then Some (logLevels ! 2)
      else if n = ''debug'' then Some (logLevels ! 3)
      else None)"
  unfolding getLogLevelByName_def findIndex_names
  by (simp only: at_index_logLevels if_distrib [of "at_index logLevels"])

lemma getLogLevelByPriority_eq:
  "getLogLevelByPriority p =
     (if p = 0 then Some (logLevels ! 0)
      else if p = 1 then Some (logLevels ! 1)
      else if p = 2 then Some (logLevels ! 2)
      else if p = 3 then Some (logLevels ! 3)
      else None)"
  by (simp add: getLogLevelByPriority_def findIndex_def at_index_def logLevels_def)

text \<open>
  Claim C5. Looking up the name of each of the four levels of the registry gives that
  level, and so does looking up its priority; a name that is none of the four names and
  a priority that is none of 0, 1, 2, 3 give \<open>undefined\<close>. The lookups are total: they
  have no branch that throws.
\<close>

theorem lookup_registry:
  "(l \<in> set logLevels \<longrightarrow>
      getLogLevelByName (name l) = Some l \<and> getLogLevelByPriority (priority l) = Some l)
   \<and> (n \<notin> {''error'', ''warn'', ''info'', ''debug''} \<longrightarrow> getLogLevelByName n = None)
   \<and> (p \<notin> {0, 1, 2, 3} \<longrightarrow> getLogLevelByPriority p = None)"
proof (intro conjI impI)
  assume "l \<in> set logLevels"
  then consider "l = logLevels ! 0" | "l = logLevels ! 1" | "l = logLevels ! 2" | "l = logLevels ! 3"
    unfolding logLevels_cases by blast
  then show "getLogLevelByName (name l) = Some l"
    by cases (simp_all add: getLogLevelByName_eq logLevels_nth)
  from \<open>l \<in> set logLevels\<close> show "getLogLevelByPriority (priority l) = Some l"
    unfolding logLevels_cases
    by (auto simp add: getLogLevelByPriority_eq logLevels_nth)
next
  assume "n \<notin> {''error'', ''warn'', ''info'', ''debug''}"
  then have "n \<noteq> ''error''" "n \<noteq> ''warn''" "n \<noteq> ''info''" "n \<noteq> ''debug''"
    by blast+
  then show "getLogLevelByName n = None"
    unfolding getLogLevelByName_eq by (simp only: if_False)
next
  assume "p \<notin> {0, 1, 2, 3}"
  then show "getLogLevelByPriority p = None"
    by (simp add: getLogLevelByPriority_eq)
qed

theorem lookup_registry_witness:
  "logLevels ! 1 \<in> set logLevels
   \<and> getLogLevelByName ''warn'' = Some (logLevels ! 1)
   \<and> getLogLevelByPriority 1 = Some (logLevels ! 1)
   \<and> ''nonexistent'' \<notin> {''error'', ''warn'', ''info'', ''debug''}
   \<and> getLogLevelByName ''nonexistent'' = None
   \<and> (99 :: int) \<notin> {0, 1, 2, 3}
   \<and> getLogLevelByPriority 99 = None"
proof -
  have m: "logLevels ! 1 \<in> set logLevels"
    by (simp add: logLevels_def)
  have n: "''nonexistent'' \<notin> {''error'', ''warn'', ''info'', ''debug''}"
    by simp
  have p: "(99 :: int) \<notin> {0, 1, 2, 3}"
    by simp
  from lookup_registry [of "logLevels ! 1" "''nonexistent''" 99] m n p
  have "getLogLevelByName (name (logLevels ! 1)) = Some (logLevels ! 1)"
    and "getLogLevelByPriority (priority (logLevels ! 1)) = Some (logLevels ! 1)"
    and "getLogLevelByName ''nonexistent'' = None"
    and "getLogLevelByPriority 99 = None"
    by blast+
  with m n p show ?thesis
    by (simp add: logLevels_nth)
qed


section \<open>Filtering, writing and the frame of each method\<close>

lemma State_neq_stdout: "s\<lparr>stdout := stdout s @ [line]\<rparr> \<noteq> (s :: State)"
proof
  assume "s\<lparr>stdout := stdout s @ [line]\<rparr> = s"
  then have "stdout (s\<lparr>stdout := stdout s @ [line]\<rparr>) = stdout s" by (rule arg_cong)
  then show False by simp
qed

lemma State_neq_stderr: "s\<lparr>stderr := stderr s @ [line]\<rparr> \<noteq> (s :: State)"
proof
  assume "s\<lparr>stderr := stderr s @ [line]\<rparr> = s"
  then have "stderr (s\<lparr>stderr := stderr s @ [line]\<rparr>) = stderr s" by (rule arg_cong)
  then show False by simp
qed

text \<open>
  Claim C1. For every state and every level, \<open>log\<close> returns a line, and changes the
  console, exactly when the priority of the active level is at least the priority of the
  level of the call. The same rule governs the four wrappers in every state: \<open>error\<close>,
  \<open>warn\<close>, \<open>info\<close> and \<open>debug\<close> return their formatted line and append it to their stream
  (the standard error for \<open>error\<close> and \<open>warn\<close>, the standard output for \<open>info\<close> and
  \<open>debug\<close>) when the active priority is at least 0, 1, 2 and 3, and otherwise return
  nothing and leave the state as it is. With the active level \<open>warn\<close> (priority 1),
  \<open>error\<close> and \<open>warn\<close> emit and write, and \<open>info\<close> and \<open>debug\<close> return nothing and leave
  the state as it is.
\<close>

theorem log_emits_iff:
  "(fst (log h level message json s) \<noteq> None \<longleftrightarrow> priority (logLevel s) \<ge> priority level)
   \<and> (snd (log h level message json s) \<noteq> s \<longleftrightarrow> priority (logLevel s) \<ge> priority level)
   \<and> error h message json s =
        (let line = (if json then formatJson h (logLevels ! 0) message s
                     else format h (logLevels ! 0) message False s)
         in if priority (logLevel s) \<ge> 0 then (Some line, s\<lparr>stderr := stderr s @ [line]\<rparr>)
            else (None, s))
   \<and> warn h message json s =
        (let line = (if json then formatJson h (logLevels ! 1) message s
                     else format h (logLevels ! 1) message False s)
         in if priority (logLevel s) \<ge> 1 then (Some line, s\<lparr>stderr := stderr s @ [line]\<rparr>)
            else (None, s))
   \<and> info h message json s =
        (let line = (if json then formatJson h (logLevels ! 2) message s
                     else format h (logLevels ! 2) message False s)
         in if priority (logLevel s) \<ge> 2 then (Some line, s\<lparr>stdout := stdout s @ [line]\<rparr>)
            else (None, s))
   \<and> debug h message json s =
        (let line = (if json then formatJson h (logLevels ! 3) message s
                     else format h (logLevels ! 3) message False s)
         in if priority (logLevel s) \<ge> 3 then (Some line, s\<lparr>stdout := stdout s @ [line]\<rparr>)
            else (None, s))
   \<and> (fst (error h message json s) \<noteq> None \<longleftrightarrow> priority (logLevel s) \<ge> 0)
   \<and> (snd (error h message json s) \<noteq> s \<longleftrightarrow> priority (logLevel s) \<ge> 0)
   \<and> (fst (warn h message json s) \<noteq> None \<longleftrightarrow> priority (logLevel s) \<ge> 1)
   \<and> (snd (warn h message json s) \<noteq> s \<longleftrightarrow> priority (logLevel s) \<ge> 1)
   \<and> (fst (info h message json s) \<noteq> None \<longleftrightarrow> priority (logLevel s) \<ge> 2)
   \<and> (snd (info h message json s) \<noteq> s \<longleftrightarrow> priority (logLevel s) \<ge> 2)
   \<and> (fst (debug h message json s) \<noteq> None \<longleftrightarrow> priority (logLevel s) \<ge> 3)
   \<and> (snd (debug h message json s) \<noteq> s \<longleftrightarrow> priority (logLevel s) \<ge> 3)
   \<and> (logLevel s = logLevels ! 1 \<longrightarrow>
        fst (error h message json s) \<noteq> None \<and> snd (error h message json s) \<noteq> s
        \<and> fst (warn h message json s) \<noteq> None \<and> snd (warn h message json s) \<noteq> s
        \<and> info h message json s = (None, s) \<and> debug h message json s = (None, s))"
proof -
  have l: "fst (log h lv message json s) \<noteq> None \<longleftrightarrow> priority (logLevel s) \<ge> priority lv"
    "snd (log h lv message json s) \<noteq> s \<longleftrightarrow> priority (logLevel s) \<ge> priority lv" for lv
    by (simp_all add: log_def Let_def State_neq_stdout State_neq_stderr)
  have e: "error h message json s =
        (let line = (if json then formatJson h (logLevels ! 0) message s
                     else format h (logLevels ! 0) message False s)
         in if priority (logLevel s) \<ge> 0 then (Some line, s\<lparr>stderr := stderr s @ [line]\<rparr>)
            else (None, s))"
    by (simp add: error_def log_def Let_def logLevels_nth)
  have w: "warn h message json s =
        (let line = (if json then formatJson h (logLevels ! 1) message s
                     else format h (logLevels ! 1) message False s)
         in if priority (logLevel s) \<ge> 1 then (Some line, s\<lparr>stderr := stderr s @ [line]\<rparr>)
            else (None, s))"
    by (simp add: warn_def log_def Let_def logLevels_nth)
  have i: "info h message json s =
        (let line = (if json then formatJson h (logLevels ! 2) message s
                     else format h (logLevels ! 2) message False s)
         in if priority (logLevel s) \<ge> 2 then (Some line, s\<lparr>stdout := stdout s @ [line]\<rparr>)
            else (None, s))"
    by (simp add: info_def log_def Let_def logLevels_nth)
  have d: "debug h message json s =
        (let line = (if json then formatJson h (logLevels ! 3) message s
                     else format h (logLevels ! 3) message False s)
         in if priority (logLevel s) \<ge> 3 then (Some line, s\<lparr>stdout := stdout s @ [line]\<rparr>)
            else (None, s))"
    by (simp add: debug_def log_def Let_def logLevels_nth)
  have we: "fst (error h message json s) \<noteq> None \<longleftrightarrow> priority (logLevel s) \<ge> 0"
    "snd (error h message json s) \<noteq> s \<longleftrightarrow> priority (logLevel s) \<ge> 0"
    using l [of "logLevels ! 0"] by (simp_all add: error_def logLevels_nth)
  have ww: "fst (warn h message json s) \<noteq> None \<longleftrightarrow> priority (logLevel s) \<ge> 1"
    "snd (warn h message json s) \<noteq> s \<longleftrightarrow> priority (logLevel s) \<ge> 1"
    using l [of "logLevels ! 1"] by (simp_all add: warn_def logLevels_nth)
  have wi: "fst (info h message json s) \<noteq> None \<longleftrightarrow> priority (logLevel s) \<ge> 2"
    "snd (info h message json s) \<noteq> s \<longleftrightarrow> priority (logLevel s) \<ge> 2"
    using l [of "logLevels ! 2"] by (simp_all add: info_def logLevels_nth)
  have wd: "fst (debug h message json s) \<noteq> None \<longleftrightarrow> priority (logLevel s) \<ge> 3"
    "snd (debug h message json s) \<noteq> s \<longleftrightarrow> priority (logLevel s) \<ge> 3"
    using l [of "logLevels ! 3"] by (simp_all add: debug_def logLevels_nth)
  have p: "fst (error h message json s) \<noteq> None \<and> snd (error h message json s) \<noteq> s
        \<and> fst (warn h message json s) \<noteq> None \<and> snd (warn h message json s) \<noteq> s
        \<and> info h message json s = (None, s) \<and> debug h message json s = (None, s)"
    if "logLevel s = logLevels ! 1"
    using that we ww by (simp add: i d logLevels_nth)
  from l [of level] e w i d we ww wi wd p show ?thesis
    by blast
qed

theorem log_emits_iff_witness:
  "logLevel \<lparr>stdout = [], stderr = [], logLevel = logLevels ! 1, timeFormat = ''HH:mm:ss''\<rparr>
     = logLevels ! 1
   \<and> error \<lparr>moment_format = id, chalk = curry snd\<rparr> ''a'' False
        \<lparr>stdout = [], stderr = [], logLevel = logLevels ! 1, timeFormat = ''HH:mm:ss''\<rparr>
     = (Some ''[HH:mm:ss] ERROR a'',
        \<lparr>stdout = [], stderr = [''[HH:mm:ss] ERROR a''], logLevel = logLevels ! 1,
           timeFormat = ''HH:mm:ss''\<rparr>)
   \<and> warn \<lparr>moment_format = id, chalk = curry snd\<rparr> ''a'' False
        \<lparr>stdout = [], stderr = [], logLevel = logLevels ! 1, timeFormat = ''HH:mm:ss''\<rparr>
     = (Some ''[HH:mm:ss] WARN a'',
        \<lparr>stdout = [], stderr = [''[HH:mm:ss] WARN a''], logLevel = logLevels ! 1,
           timeFormat = ''HH:mm:ss''\<rparr>)
   \<and> info \<lparr>moment_format = id, chalk = curry snd\<rparr> ''a'' False
        \<lparr>stdout = [], stderr = [], logLevel = logLevels ! 1, timeFormat = ''HH:mm:ss''\<rparr>
     = (None, \<lparr>stdout = [], stderr = [], logLevel = logLevels ! 1, timeFormat = ''HH:mm:ss''\<rparr>)
   \<and> debug \<lparr>moment_format = id, chalk = curry snd\<rparr> ''a'' False
        \<lparr>stdout = [], stderr = [], logLevel = logLevels ! 1, timeFormat = ''HH:mm:ss''\<rparr>
     = (None, \<lparr>stdout = [], stderr = [], logLevel = logLevels ! 1, timeFormat = ''HH:mm:ss''\<rparr>)"
proof -
  let ?h = "\<lparr>moment_format = id, chalk = curry snd\<rparr>"
  let ?s = "\<lparr>stdout = [], stderr = [], logLevel = logLevels ! 1, timeFormat = ''HH:mm:ss''\<rparr>"
  note t = log_emits_iff [where s = ?s and level = "logLevels ! 0" and h = ?h
      and message = "''a''" and json = False]
  have a: "logLevel ?s = logLevels ! 1" by simp
  from t a have quiet: "info ?h ''a'' False ?s = (None, ?s)" "debug ?h ''a'' False ?s = (None, ?s)"
    by blast+
  from t have "error ?h ''a'' False ?s =
        (let line = (if False then formatJson ?h (logLevels ! 0) ''a'' ?s
                     else format ?h (logLevels ! 0) ''a'' False ?s)
         in if priority (logLevel ?s) \<ge> 0 then (Some line, ?s\<lparr>stderr := stderr ?s @ [line]\<rparr>)
            else (None, ?s))"
    by blast
  then have 1: "error ?h ''a'' False ?s
      = (Some ''[HH:mm:ss] ERROR a'',
         \<lparr>stdout = [], stderr = [''[HH:mm:ss] ERROR a''], logLevel = logLevels ! 1,
            timeFormat = ''HH:mm:ss''\<rparr>)"
    by (simp add: Let_def logLevels_nth format_def toUpperCase_def toUpperCase_unit_def)
  from t have "warn ?h ''a'' False ?s =
        (let line = (if False then formatJson ?h (logLevels ! 1) ''a'' ?s
                     else format ?h (logLevels ! 1) ''a'' False ?s)
         in if priority (logLevel ?s) \<ge> 1 then (Some line, ?s\<lparr>stderr := stderr ?s @ [line]\<rparr>)
            else (None, ?s))"
    by blast
  then have 2: "warn ?h ''a'' False ?s
      = (Some ''[HH:mm:ss] WARN a'',
         \<lparr>stdout = [], stderr = [''[HH:mm:ss] WARN a''], logLevel = logLevels ! 1,
            timeFormat = ''HH:mm:ss''\<rparr>)"
    by (simp add: Let_def logLevels_nth format_def toUpperCase_def toUpperCase_unit_def)
  from a 1 2 quiet show ?thesis by blast
qed

text \<open>
  Claim C2. When the active priority is below that of the level, \<open>log\<close> returns
  \<open>undefined\<close>, which is not an empty line, and leaves the whole state as it is: nothing
  is written. Otherwise the line is that of \<open>formatJson\<close> when \<open>json\<close> is set and that of
  \<open>format\<close> with its time prefix when it is not; it is appended to the standard output for
  a level of scope \<open>STDOUT\<close> and to the standard error for one of scope \<open>STDERR\<close>, the
  other stream unchanged, and it is the value returned.
\<close>

theorem log_result:
  "(\<not> priority (logLevel s) \<ge> priority level \<longrightarrow>
      log h level message json s = (None, s) \<and> fst (log h level message json s) \<noteq> Some [])
   \<and> (priority (logLevel s) \<ge> priority level \<longrightarrow>
        (let line = (if json then formatJson h level message s
                     else format h level message False s)
         in (scope level = STDOUT \<longrightarrow>
               log h level message json s = (Some line, s\<lparr>stdout := stdout s @ [line]\<rparr>))
            \<and> (scope level = STDERR \<longrightarrow>
               log h level message json s = (Some line, s\<lparr>stderr := stderr s @ [line]\<rparr>))))"
  by (simp add: log_def Let_def)

theorem log_result_witness:
  "\<not> priority (logLevel \<lparr>stdout = [], stderr = [], logLevel = logLevels ! 1, timeFormat = ''HH:mm:ss''\<rparr>)
        \<ge> priority (logLevels ! 2)
   \<and> log \<lparr>moment_format = id, chalk = curry snd\<rparr> (logLevels ! 2) ''a'' False
        \<lparr>stdout = [], stderr = [], logLevel = logLevels ! 1, timeFormat = ''HH:mm:ss''\<rparr>
       = (None, \<lparr>stdout = [], stderr = [], logLevel = logLevels ! 1, timeFormat = ''HH:mm:ss''\<rparr>)
   \<and> priority (logLevel \<lparr>stdout = [], stderr = [], logLevel = logLevels ! 3, timeFormat = ''HH:mm:ss''\<rparr>)
        \<ge> priority (logLevels ! 2)
   \<and> scope (logLevels ! 2) = STDOUT
   \<and> log \<lparr>moment_format = id, chalk = curry snd\<rparr> (logLevels ! 2) ''a'' False
        \<lparr>stdout = [], stderr = [], logLevel = logLevels ! 3, timeFormat = ''HH:mm:ss''\<rparr>
       = (Some ''[HH:mm:ss] INFO a'',
          \<lparr>stdout = [''[HH:mm:ss] INFO a''], stderr = [], logLevel = logLevels ! 3,
             timeFormat = ''HH:mm:ss''\<rparr>)
   \<and> priority (logLevel \<lparr>stdout = [], stderr = [], logLevel = logLevels ! 3, timeFormat = ''HH:mm:ss''\<rparr>)
        \<ge> priority (logLevels ! 0)
   \<and> scope (logLevels ! 0) = STDERR
   \<and> log \<lparr>moment_format = id, chalk = curry snd\<rparr> (logLevels ! 0) ''a'' False
        \<lparr>stdout = [], stderr = [], logLevel = logLevels ! 3, timeFormat = ''HH:mm:ss''\<rparr>
       = (Some ''[HH:mm:ss] ERROR a'',
          \<lparr>stdout = [], stderr = [''[HH:mm:ss] ERROR a''], logLevel = logLevels ! 3,
             timeFormat = ''HH:mm:ss''\<rparr>)"
proof -
  let ?h = "\<lparr>moment_format = id, chalk = curry snd\<rparr>"
  let ?w = "\<lparr>stdout = [], stderr = [], logLevel = logLevels ! 1, timeFormat = ''HH:mm:ss''\<rparr>"
  let ?d = "\<lparr>stdout = [], stderr = [], logLevel = logLevels ! 3, timeFormat = ''HH:mm:ss''\<rparr>"
  have a: "\<not> priority (logLevel ?w) \<ge> priority (logLevels ! 2)"
    by (simp add: logLevels_nth)
  have b: "priority (logLevel ?d) \<ge> priority (logLevels ! 2)" "scope (logLevels ! 2) = STDOUT"
    by (simp_all add: logLevels_nth)
  have c: "priority (logLevel ?d) \<ge> priority (logLevels ! 0)" "scope (logLevels ! 0) = STDERR"
    by (simp_all add: logLevels_nth)
  have fi: "format ?h (logLevels ! 2) ''a'' False ?d = ''[HH:mm:ss] INFO a''"
    by (simp add: format_def Let_def logLevels_nth toUpperCase_def toUpperCase_unit_def)
  have fe: "format ?h (logLevels ! 0) ''a'' False ?d = ''[HH:mm:ss] ERROR a''"
    by (simp add: format_def Let_def logLevels_nth toUpperCase_def toUpperCase_unit_def)
  from log_result [where s = ?w and level = "logLevels ! 2" and h = ?h and message = "''a''"
      and json = False] a
  have 1: "log ?h (logLevels ! 2) ''a'' False ?w = (None, ?w)"
    by blast
  from log_result [where s = ?d and level = "logLevels ! 2" and h = ?h and message = "''a''"
      and json = False] b
  have "log ?h (logLevels ! 2) ''a'' False ?d
      = (Some (format ?h (logLevels ! 2) ''a'' False ?d),
         ?d\<lparr>stdout := stdout ?d @ [format ?h (logLevels ! 2) ''a'' False ?d]\<rparr>)"
    by (simp add: Let_def)
  then have 2: "log ?h (logLevels ! 2) ''a'' False ?d
      = (Some ''[HH:mm:ss] INFO a'',
         \<lparr>stdout = [''[HH:mm:ss] INFO a''], stderr = [], logLevel = logLevels ! 3,
            timeFormat = ''HH:mm:ss''\<rparr>)"
    by (simp add: fi)
  from log_result [where s = ?d and level = "logLevels ! 0" and h = ?h and message = "''a''"
      and json = False] c
  have "log ?h (logLevels ! 0) ''a'' False ?d
      = (Some (format ?h (logLevels ! 0) ''a'' False ?d),
         ?d\<lparr>stderr := stderr ?d @ [format ?h (logLevels ! 0) ''a'' False ?d]\<rparr>)"
    by (simp add: Let_def)
  then have 3: "log ?h (logLevels ! 0) ''a'' False ?d
      = (Some ''[HH:mm:ss] ERROR a'',
         \<lparr>stdout = [], stderr = [''[HH:mm:ss] ERROR a''], logLevel = logLevels ! 3,
            timeFormat = ''HH:mm:ss''\<rparr>)"
    by (simp add: fe)
  from a b c 1 2 3 show ?thesis by blast
qed

text \<open>
  Claim C9. With \<open>notime\<close> set, \<open>format\<close> gives the upper-cased name of the level, styled
  with the level's chalk, a space and the message, with no prefix. Without it the same
  text follows the prefix made of \<open>[\<close>, the gray-styled time in the configured format,
  \<open>]\<close> and a space. The upper-cased names of the registry are ERROR, WARN, INFO, DEBUG.
\<close>

theorem format_shape:
  "format h level message True s = chalk h (color level) (toUpperCase (name level)) @ '' '' @ message
   \<and> format h level message False s
       = ''['' @ chalk h [Gray] (moment_format h (timeFormat s)) @ ''] ''
         @ chalk h (color level) (toUpperCase (name level)) @ '' '' @ message
   \<and> map (\<lambda>l. toUpperCase (name l)) logLevels = [''ERROR'', ''WARN'', ''INFO'', ''DEBUG'']"
  by (simp add: format_def Let_def logLevels_def toUpperCase_def toUpperCase_unit_def)


lemma log_frame:
  "logLevel (snd (log h level message json s)) = logLevel s"
  "timeFormat (snd (log h level message json s)) = timeFormat s"
  by (simp_all add: log_def Let_def)

text \<open>
  Claim C10. \<open>setLogLevel\<close> replaces the active level and nothing else, \<open>setTimeFormat\<close>
  replaces the time format and nothing else, and a call of any other public method
  (\<open>log\<close>, the four wrappers, the two formatters, the two lookups) leaves the active level
  and the time format as they were.
\<close>

theorem frame:
  "invoke h (SetLogLevel level) s = (Void, s\<lparr>logLevel := level\<rparr>)
   \<and> timeFormat (s\<lparr>logLevel := level\<rparr>) = timeFormat s
   \<and> invoke h (SetTimeFormat fmt) s = (Void, s\<lparr>timeFormat := fmt\<rparr>)
   \<and> logLevel (s\<lparr>timeFormat := fmt\<rparr>) = logLevel s
   \<and> ((\<forall>l. c \<noteq> SetLogLevel l) \<and> (\<forall>f. c \<noteq> SetTimeFormat f) \<longrightarrow>
        logLevel (snd (invoke h c s)) = logLevel s
        \<and> timeFormat (snd (invoke h c s)) = timeFormat s)"
proof -
  have "logLevel (snd (invoke h c s)) = logLevel s \<and> timeFormat (snd (invoke h c s)) = timeFormat s"
    if "\<forall>l. c \<noteq> SetLogLevel l" and "\<forall>f. c \<noteq> SetTimeFormat f"
    using that
    by (cases c) (simp_all add: log_frame error_def warn_def info_def debug_def)
  then show ?thesis
    by (simp add: setLogLevel_def setTimeFormat_def)
qed

theorem frame_witness:
  "(\<forall>l. Info ''ready'' False \<noteq> SetLogLevel l) \<and> (\<forall>f. Info ''ready'' False \<noteq> SetTimeFormat f)
   \<and> invoke \<lparr>moment_format = id, chalk = curry snd\<rparr> (Info ''ready'' False)
        \<lparr>stdout = [], stderr = [], logLevel = logLevels ! 2, timeFormat = ''HH:mm''\<rparr>
       = (Line (Some ''[HH:mm] INFO ready''),
          \<lparr>stdout = [''[HH:mm] INFO ready''], stderr = [], logLevel = logLevels ! 2,
             timeFormat = ''HH:mm''\<rparr>)
   \<and> logLevel (snd (invoke \<lparr>moment_format = id, chalk = curry snd\<rparr> (Info ''ready'' False)
        \<lparr>stdout = [], stderr = [], logLevel = logLevels ! 2, timeFormat = ''HH:mm''\<rparr>))
       = logLevels ! 2
   \<and> timeFormat (snd (invoke \<lparr>moment_format = id, chalk = curry snd\<rparr> (Info ''ready'' False)
        \<lparr>stdout = [], stderr = [], logLevel = logLevels ! 2, timeFormat = ''HH:mm''\<rparr>))
       = ''HH:mm''"
proof -
  let ?h = "\<lparr>moment_format = id, chalk = curry snd\<rparr>"
  let ?s = "\<lparr>stdout = [], stderr = [], logLevel = logLevels ! 2, timeFormat = ''HH:mm''\<rparr>"
  have a: "\<forall>l. Info ''ready'' False \<noteq> SetLogLevel l" "\<forall>f. Info ''ready'' False \<noteq> SetTimeFormat f"
    by simp_all
  from frame [where c = "Info ''ready'' False" and h = ?h and s = ?s] a
  have "logLevel (snd (invoke ?h (Info ''ready'' False) ?s)) = logLevel ?s"
    and "timeFormat (snd (invoke ?h (Info ''ready'' False) ?s)) = timeFormat ?s"
    by blast+
  then have b: "logLevel (snd (invoke ?h (Info ''ready'' False) ?s)) = logLevels ! 2"
    "timeFormat (snd (invoke ?h (Info ''ready'' False) ?s)) = ''HH:mm''"
    by simp_all
  have c: "invoke ?h (Info ''ready'' False) ?s
       = (Line (Some ''[HH:mm] INFO ready''),
          \<lparr>stdout = [''[HH:mm] INFO ready''], stderr = [], logLevel = logLevels ! 2,
             timeFormat = ''HH:mm''\<rparr>)"
    by (simp add: info_def log_def format_def Let_def logLevels_nth toUpperCase_def
        toUpperCase_unit_def)
  from a b c show ?thesis by blast
qed


section \<open>Resolving the threshold at construction\<close>

lemma at_index_in_set: "at_index xs i = Some x \<Longrightarrow> x \<in> set xs"
  by (auto simp add: at_index_def split: if_splits)

lemma lookups_in_registry:
  "getLogLevelByName n = Some l \<Longrightarrow> l \<in> set logLevels"
  "getLogLevelByPriority p = Some l \<Longrightarrow> l \<in> set logLevels"
  unfolding getLogLevelByName_def getLogLevelByPriority_def
  by (erule at_index_in_set)+

lemma lookup_byName_unknown:
  "n \<notin> {''error'', ''warn'', ''info'', ''debug''} \<Longrightarrow> getLogLevelByName n = None"
proof -
  assume "n \<notin> {''error'', ''warn'', ''info'', ''debug''}"
  then have "n \<noteq> ''error''" "n \<noteq> ''warn''" "n \<noteq> ''info''" "n \<noteq> ''debug''"
    by blast+
  then show "getLogLevelByName n = None"
    unfolding getLogLevelByName_eq by (simp only: if_False)
qed

lemma defaultLogLevel_eq: "defaultLogLevel = logLevels ! 2"
  by (simp add: defaultLogLevel_def)

lemma constructor_logLevel:
  "logLevel (Logger_constructor h e c) =
     (case e of
        None \<Rightarrow> logLevels ! 2
      | Some v \<Rightarrow>
          if v = [] then logLevels ! 2
          else (case parseInt v of
                  None \<Rightarrow> (case getLogLevelByName v of None \<Rightarrow> logLevels ! 2 | Some l \<Rightarrow> l)
                | Some n \<Rightarrow> (case getLogLevelByPriority n of None \<Rightarrow> logLevels ! 2 | Some l \<Rightarrow> l)))"
  by (simp add: Logger_constructor_def Let_def debug_def log_frame defaultLogLevel_eq
      cong: option.case_cong if_cong)

lemma constructor_in_registry: "logLevel (Logger_constructor h e c) \<in> set logLevels"
  unfolding constructor_logLevel
  by (auto simp add: logLevels_cases split: option.splits dest: lookups_in_registry)

lemma parseInt_samples:
  "parseInt ''1'' = Some 1" "parseInt ''99'' = Some 99" "parseInt ''debug'' = None"
  "parseInt ''bogus'' = None" "parseInt ''01'' = Some 1"
  by (simp_all add: parseInt_def isWhiteSpace_def digitValue_def)

text \<open>
  Claim C3. The constructor resolves an unset \<open>LOG_LEVEL\<close> to info, \<open>1\<close> to warn, \<open>99\<close> to
  info, \<open>debug\<close> to debug and \<open>bogus\<close> to info. For a non-empty string that \<open>parseInt\<close> reads
  as a number, the level is decided by the lookup of that number alone (the default when
  the lookup finds nothing): the name of the string is never looked up.
\<close>

theorem threshold_resolution:
  "logLevel (Logger_constructor h None c) = logLevels ! 2
   \<and> logLevel (Logger_constructor h (Some ''1'') c) = logLevels ! 1
   \<and> logLevel (Logger_constructor h (Some ''99'') c) = logLevels ! 2
   \<and> logLevel (Logger_constructor h (Some ''debug'') c) = logLevels ! 3
   \<and> logLevel (Logger_constructor h (Some ''bogus'') c) = logLevels ! 2
   \<and> (v \<noteq> [] \<and> parseInt v = Some n \<longrightarrow>
        logLevel (Logger_constructor h (Some v) c)
          = (case getLogLevelByPriority n of None \<Rightarrow> logLevels ! 2 | Some l \<Rightarrow> l))"
proof (intro conjI impI)
  show "logLevel (Logger_constructor h None c) = logLevels ! 2"
    by (simp add: constructor_logLevel)
  show "logLevel (Logger_constructor h (Some ''1'') c) = logLevels ! 1"
    by (simp add: constructor_logLevel parseInt_samples getLogLevelByPriority_eq)
  show "logLevel (Logger_constructor h (Some ''99'') c) = logLevels ! 2"
    by (simp add: constructor_logLevel parseInt_samples getLogLevelByPriority_eq)
  show "logLevel (Logger_constructor h (Some ''debug'') c) = logLevels ! 3"
    by (simp add: constructor_logLevel parseInt_samples getLogLevelByName_eq)
  show "logLevel (Logger_constructor h (Some ''bogus'') c) = logLevels ! 2"
    by (simp add: constructor_logLevel parseInt_samples getLogLevelByName_eq)
  show "logLevel (Logger_constructor h (Some v) c)
          = (case getLogLevelByPriority n of None \<Rightarrow> logLevels ! 2 | Some l \<Rightarrow> l)"
    if "v \<noteq> [] \<and> parseInt v = Some n"
    using that by (simp add: constructor_logLevel)
qed

theorem threshold_resolution_witness:
  "''3'' \<noteq> [] \<and> parseInt ''3'' = Some 3
   \<and> logLevel (Logger_constructor \<lparr>moment_format = id, chalk = curry snd\<rparr> (Some ''3'')
        \<lparr>stdout = [], stderr = []\<rparr>) = logLevels ! 3"
proof -
  have a: "''3'' \<noteq> [] \<and> parseInt ''3'' = Some 3"
    by (simp add: parseInt_def isWhiteSpace_def digitValue_def)
  from threshold_resolution [where v = "''3''" and n = 3
      and h = "\<lparr>moment_format = id, chalk = curry snd\<rparr>" and c = "\<lparr>stdout = [], stderr = []\<rparr>"] a
  have "logLevel (Logger_constructor \<lparr>moment_format = id, chalk = curry snd\<rparr> (Some ''3'')
        \<lparr>stdout = [], stderr = []\<rparr>)
      = (case getLogLevelByPriority 3 of None \<Rightarrow> logLevels ! 2 | Some l \<Rightarrow> l)"
    by blast
  with a show ?thesis
    by (simp add: getLogLevelByPriority_eq)
qed


lemma constructor_state:
  "Logger_constructor h e c =
     snd (debug h (''Using log level: '' @ name (logLevel (Logger_constructor h e c))) False
            \<lparr>stdout = stdout c, stderr = stderr c,
               logLevel = logLevel (Logger_constructor h e c), timeFormat = ''HH:mm:ss''\<rparr>)"
  by (simp add: Logger_constructor_def Let_def debug_def log_frame)

lemma constructor_quiet:
  assumes "logLevel (Logger_constructor h e c) \<noteq> logLevels ! 3"
  shows "Logger_constructor h e c =
           \<lparr>stdout = stdout c, stderr = stderr c,
              logLevel = logLevel (Logger_constructor h e c), timeFormat = ''HH:mm:ss''\<rparr>"
proof -
  from constructor_in_registry [of h e c] assms
  have "priority (logLevel (Logger_constructor h e c)) < 3"
    unfolding logLevels_cases by (auto simp add: logLevels_nth)
  then show ?thesis
    by (subst constructor_state) (simp add: debug_def log_def logLevels_nth)
qed

lemma constructor_announces:
  assumes "logLevel (Logger_constructor h e c) = logLevels ! 3"
  shows "Logger_constructor h e c =
           \<lparr>stdout = stdout c @ [''['' @ chalk h [Gray] (moment_format h ''HH:mm:ss'') @ ''] ''
                                  @ chalk h [Blue, Bold] ''DEBUG'' @ '' Using log level: debug''],
              stderr = stderr c, logLevel = logLevels ! 3, timeFormat = ''HH:mm:ss''\<rparr>"
  by (subst constructor_state)
    (simp add: assms debug_def log_def format_def Let_def logLevels_nth toUpperCase_def
      toUpperCase_unit_def)

text \<open>
  Claim C4, as amended. The claim as written fails: the string \<open>01\<close> is neither one of
  \<open>0\<close> to \<open>3\<close> nor a level name, and the constructor resolves it to warn, because
  \<open>parseInt\<close> reads it as the number 1.
  What holds: when \<open>parseInt\<close> reads no number in the string and the string is none of
  the four level names, or when \<open>parseInt\<close> reads a number other than 0, 1, 2, 3, the
  constructor resolves the level to info, and it does so silently: it returns the state
  with the console as it was.
\<close>

theorem fallback_to_info:
  assumes "parseInt v = None \<longrightarrow> v \<notin> {''error'', ''warn'', ''info'', ''debug''}"
    and "\<forall>n. parseInt v = Some n \<longrightarrow> n \<notin> {0, 1, 2, 3}"
  shows "Logger_constructor h (Some v) c =
           \<lparr>stdout = stdout c, stderr = stderr c, logLevel = logLevels ! 2,
              timeFormat = ''HH:mm:ss''\<rparr>"
proof -
  have "logLevel (Logger_constructor h (Some v) c) = logLevels ! 2"
  proof (cases "parseInt v")
    case None
    with assms(1) have "v \<notin> {''error'', ''warn'', ''info'', ''debug''}"
      by blast
    with lookup_byName_unknown have "getLogLevelByName v = None"
      by blast
    with None show ?thesis
      by (simp add: constructor_logLevel)
  next
    case (Some n)
    with assms(2) have "n \<notin> {0, 1, 2, 3}"
      by blast
    then have "getLogLevelByPriority n = None"
      by (simp add: getLogLevelByPriority_eq)
    with Some show ?thesis
      by (simp add: constructor_logLevel)
  qed
  moreover have "logLevels ! 2 \<noteq> logLevels ! 3"
    by (simp add: logLevels_nth)
  ultimately show ?thesis
    using constructor_quiet [of h "Some v" c] by simp
qed

theorem fallback_to_info_witness:
  "parseInt ''bogus'' = None
   \<and> ''bogus'' \<notin> {''error'', ''warn'', ''info'', ''debug''}
   \<and> Logger_constructor \<lparr>moment_format = id, chalk = curry snd\<rparr> (Some ''bogus'')
         \<lparr>stdout = [], stderr = []\<rparr>
       = \<lparr>stdout = [], stderr = [], logLevel = logLevels ! 2, timeFormat = ''HH:mm:ss''\<rparr>
   \<and> parseInt ''99'' = Some 99
   \<and> (99 :: int) \<notin> {0, 1, 2, 3}
   \<and> Logger_constructor \<lparr>moment_format = id, chalk = curry snd\<rparr> (Some ''99'')
         \<lparr>stdout = [], stderr = []\<rparr>
       = \<lparr>stdout = [], stderr = [], logLevel = logLevels ! 2, timeFormat = ''HH:mm:ss''\<rparr>"
proof -
  let ?h = "\<lparr>moment_format = id, chalk = curry snd\<rparr>"
  let ?c = "\<lparr>stdout = [], stderr = []\<rparr>"
  have p: "parseInt ''bogus'' = None" "''bogus'' \<notin> {''error'', ''warn'', ''info'', ''debug''}"
    "parseInt ''99'' = Some 99" "(99 :: int) \<notin> {0, 1, 2, 3}"
    by (simp_all add: parseInt_samples)
  have a: "parseInt ''bogus'' = None \<longrightarrow> ''bogus'' \<notin> {''error'', ''warn'', ''info'', ''debug''}"
    "\<forall>n. parseInt ''bogus'' = Some n \<longrightarrow> n \<notin> {0, 1, 2, 3}"
    by (simp_all add: parseInt_samples)
  have b: "parseInt ''99'' = None \<longrightarrow> ''99'' \<notin> {''error'', ''warn'', ''info'', ''debug''}"
    "\<forall>n. parseInt ''99'' = Some n \<longrightarrow> n \<notin> {0, 1, 2, 3}"
    by (simp_all add: parseInt_samples)
  from fallback_to_info [OF a, of ?h ?c] fallback_to_info [OF b, of ?h ?c] p
  show ?thesis by simp
qed

text \<open>
  The input at which claim C4 fails as it is written: \<open>LOG_LEVEL=01\<close>.
\<close>

theorem integer_strings_counterexample:
  "''01'' \<notin> {''0'', ''1'', ''2'', ''3''}
   \<and> ''01'' \<notin> {''error'', ''warn'', ''info'', ''debug''}
   \<and> logLevel (Logger_constructor \<lparr>moment_format = id, chalk = curry snd\<rparr> (Some ''01'')
         \<lparr>stdout = [], stderr = []\<rparr>) = logLevels ! 1
   \<and> logLevels ! 1 \<noteq> logLevels ! 2"
  by (simp add: constructor_logLevel parseInt_samples getLogLevelByPriority_eq logLevels_nth)

text \<open>
  Claim C6. The state the constructor returns is the state after one call of \<open>debug\<close>,
  with the message that names the resolved level, made on the state that already holds
  the resolved level. So the announcement goes through the filter of \<open>log\<close> under the
  resolved level: it is the one line added to the standard output when the resolved
  level is debug, nothing is written when the resolved level is any other, and the
  standard error is never written.
\<close>

theorem constructor_announcement:
  "Logger_constructor h e c =
     snd (debug h (''Using log level: '' @ name (logLevel (Logger_constructor h e c))) False
            \<lparr>stdout = stdout c, stderr = stderr c,
               logLevel = logLevel (Logger_constructor h e c), timeFormat = ''HH:mm:ss''\<rparr>)
   \<and> (logLevel (Logger_constructor h e c) = logLevels ! 3 \<longrightarrow>
        stdout (Logger_constructor h e c)
          = stdout c @ [''['' @ chalk h [Gray] (moment_format h ''HH:mm:ss'') @ ''] ''
                        @ chalk h [Blue, Bold] ''DEBUG'' @ '' Using log level: debug''])
   \<and> (logLevel (Logger_constructor h e c) \<noteq> logLevels ! 3 \<longrightarrow>
        stdout (Logger_constructor h e c) = stdout c)
   \<and> stderr (Logger_constructor h e c) = stderr c"
proof (intro conjI impI)
  show "Logger_constructor h e c =
     snd (debug h (''Using log level: '' @ name (logLevel (Logger_constructor h e c))) False
            \<lparr>stdout = stdout c, stderr = stderr c,
               logLevel = logLevel (Logger_constructor h e c), timeFormat = ''HH:mm:ss''\<rparr>)"
    by (rule constructor_state)
  show "stdout (Logger_constructor h e c)
          = stdout c @ [''['' @ chalk h [Gray] (moment_format h ''HH:mm:ss'') @ ''] ''
                        @ chalk h [Blue, Bold] ''DEBUG'' @ '' Using log level: debug'']"
    if "logLevel (Logger_constructor h e c) = logLevels ! 3"
    by (subst constructor_announces [OF that]) simp
  show "stdout (Logger_constructor h e c) = stdout c"
    if "logLevel (Logger_constructor h e c) \<noteq> logLevels ! 3"
    by (subst constructor_quiet [OF that]) simp
  show "stderr (Logger_constructor h e c) = stderr c"
  proof (cases "logLevel (Logger_constructor h e c) = logLevels ! 3")
    case True
    then show ?thesis by (subst constructor_announces) simp_all
  next
    case False
    then show ?thesis by (subst constructor_quiet) simp_all
  qed
qed

theorem constructor_announcement_witness:
  "logLevel (Logger_constructor \<lparr>moment_format = id, chalk = curry snd\<rparr> (Some ''debug'')
        \<lparr>stdout = [], stderr = []\<rparr>) = logLevels ! 3
   \<and> stdout (Logger_constructor \<lparr>moment_format = id, chalk = curry snd\<rparr> (Some ''debug'')
        \<lparr>stdout = [], stderr = []\<rparr>) = [''[HH:mm:ss] DEBUG Using log level: debug'']
   \<and> logLevel (Logger_constructor \<lparr>moment_format = id, chalk = curry snd\<rparr> (Some ''warn'')
        \<lparr>stdout = [], stderr = []\<rparr>) \<noteq> logLevels ! 3
   \<and> stdout (Logger_constructor \<lparr>moment_format = id, chalk = curry snd\<rparr> (Some ''warn'')
        \<lparr>stdout = [], stderr = []\<rparr>) = []"
proof -
  let ?h = "\<lparr>moment_format = id, chalk = curry snd\<rparr>"
  let ?c = "\<lparr>stdout = [], stderr = []\<rparr>"
  have a: "logLevel (Logger_constructor ?h (Some ''debug'') ?c) = logLevels ! 3"
    by (simp add: constructor_logLevel parseInt_samples getLogLevelByName_eq)
  have "parseInt ''warn'' = None"
    by (simp add: parseInt_def isWhiteSpace_def digitValue_def)
  then have b: "logLevel (Logger_constructor ?h (Some ''warn'') ?c) \<noteq> logLevels ! 3"
    by (simp add: constructor_logLevel getLogLevelByName_eq logLevels_nth)
  from constructor_announcement [of ?h "Some ''debug''" ?c] a
  have 1: "stdout (Logger_constructor ?h (Some ''debug'') ?c)
      = stdout ?c @ [''['' @ chalk ?h [Gray] (moment_format ?h ''HH:mm:ss'') @ ''] ''
                        @ chalk ?h [Blue, Bold] ''DEBUG'' @ '' Using log level: debug'']"
    by blast
  from constructor_announcement [of ?h "Some ''warn''" ?c] b
  have 2: "stdout (Logger_constructor ?h (Some ''warn'') ?c) = stdout ?c"
    by blast
  from a b 1 2 show ?thesis by simp
qed


section \<open>The JSON record\<close>

lemma below_16_cases:
  "k < 16 \<Longrightarrow>
     k = 0 \<or> k = 1 \<or> k = 2 \<or> k = 3 \<or> k = 4 \<or> k = 5 \<or> k = 6 \<or> k = 7 \<or> k = 8 \<or> k = 9
     \<or> k = 10 \<or> k = 11 \<or> k = 12 \<or> k = 13 \<or> k = 14 \<or> k = (15 :: nat)"
  by arith

lemma digitValue_hexDigit: "k < 16 \<Longrightarrow> digitValue (hexDigit k) = Some k"
  by (drule below_16_cases) (auto simp add: hexDigit_def digitValue_def)

lemma hexDigit_printable: "k < 16 \<Longrightarrow> hexDigit k \<noteq> CHR 0x0A \<and> hexDigit k \<noteq> CHR 0x0D"
  by (drule below_16_cases) (auto simp add: hexDigit_def)

lemma readHex4_control:
  assumes "(of_char c :: nat) < 32"
  shows "readHex4 (CHR ''0'') (CHR ''0'') (hexDigit ((of_char c :: nat) div 16))
           (hexDigit ((of_char c :: nat) mod 16)) = Some c"
proof -
  let ?n = "of_char c :: nat"
  have "?n div 16 < 16"
    using assms by simp
  then have hi: "digitValue (hexDigit (?n div 16)) = Some (?n div 16)"
    by (rule digitValue_hexDigit)
  have lo: "digitValue (hexDigit (?n mod 16)) = Some (?n mod 16)"
    by (rule digitValue_hexDigit) simp
  have zero: "digitValue (CHR ''0'') = Some 0"
    by (simp add: digitValue_def)
  have "char_of (?n div 16 * 16 + ?n mod 16) = c"
    by simp
  moreover have "?n div 16 * 16 + ?n mod 16 < 256"
    using assms by simp
  ultimately show ?thesis
    by (simp add: readHex4_def hi lo zero Let_def del: div_mult_mod_eq)
qed

lemma readChars_plain:
  "c \<noteq> CHR 0x22 \<Longrightarrow> c \<noteq> CHR 0x5C \<Longrightarrow> \<not> (of_char c :: nat) < 32 \<Longrightarrow>
     readChars (c # cs) = map_option (apfst ((#) c)) (readChars cs)"
  by (simp add: readChars.simps)

lemma readChars_escape:
  "unescape e = Some x \<Longrightarrow> e \<noteq> CHR ''u'' \<Longrightarrow>
     readChars (CHR 0x5C # e # cs) = map_option (apfst ((#) x)) (readChars cs)"
  by (simp add: readChars.simps)

lemma readChars_hex:
  "readHex4 a b c d = Some x \<Longrightarrow>
     readChars (CHR 0x5C # CHR ''u'' # a # b # c # d # cs) = map_option (apfst ((#) x)) (readChars cs)"
  by (simp add: readChars.simps)

lemma readChars_unit:
  "readChars (QuoteJSONUnit c @ cs) = map_option (apfst ((#) c)) (readChars cs)"
proof -
  consider "c = CHR 0x08" | "c = CHR 0x09" | "c = CHR 0x0A" | "c = CHR 0x0C" | "c = CHR 0x0D"
    | "c = CHR 0x22" | "c = CHR 0x5C"
    | "c \<noteq> CHR 0x08" "c \<noteq> CHR 0x09" "c \<noteq> CHR 0x0A" "c \<noteq> CHR 0x0C" "c \<noteq> CHR 0x0D"
      "c \<noteq> CHR 0x22" "c \<noteq> CHR 0x5C" "(of_char c :: nat) < 32"
    | "c \<noteq> CHR 0x08" "c \<noteq> CHR 0x09" "c \<noteq> CHR 0x0A" "c \<noteq> CHR 0x0C" "c \<noteq> CHR 0x0D"
      "c \<noteq> CHR 0x22" "c \<noteq> CHR 0x5C" "\<not> (of_char c :: nat) < 32"
    by blast
  then show ?thesis
  proof cases
    case 1
    then show ?thesis by (simp add: QuoteJSONUnit_def readChars_escape unescape_def)
  next
    case 2
    then show ?thesis by (simp add: QuoteJSONUnit_def readChars_escape unescape_def)
  next
    case 3
    then show ?thesis by (simp add: QuoteJSONUnit_def readChars_escape unescape_def)
  next
    case 4
    then show ?thesis by (simp add: QuoteJSONUnit_def readChars_escape unescape_def)
  next
    case 5
    then show ?thesis by (simp add: QuoteJSONUnit_def readChars_escape unescape_def)
  next
    case 6
    then show ?thesis by (simp add: QuoteJSONUnit_def readChars_escape unescape_def)
  next
    case 7
    then show ?thesis by (simp add: QuoteJSONUnit_def readChars_escape unescape_def)
  next
    case 8
    then show ?thesis
      by (simp add: QuoteJSONUnit_def readChars_hex [OF readHex4_control])
  next
    case 9
    then show ?thesis by (simp add: QuoteJSONUnit_def readChars_plain)
  qed
qed

lemma readChars_units:
  "readChars (concat (map QuoteJSONUnit v) @ CHR 0x22 # rest) = Some (v, rest)"
proof (induction v)
  case Nil
  show ?case by (simp add: readChars.simps)
next
  case (Cons c v)
  then show ?case by (simp add: readChars_unit)
qed

lemma radixDigits_append:
  "\<forall>c \<in> set xs. \<exists>d. digitValue c = Some d \<and> d < R \<Longrightarrow>
     radixDigits R (xs @ ys) = radixDigits R xs @ radixDigits R ys"
  by (induction xs) auto

lemma radixDigits_length:
  "\<forall>c \<in> set xs. \<exists>d. digitValue c = Some d \<and> d < R \<Longrightarrow>
     length (radixDigits R xs) = length xs"
  by (induction xs) auto

lemma decimalDigits_digits:
  "\<forall>c \<in> set (decimalDigits n). \<exists>d. digitValue c = Some d \<and> d < 10"
proof (induction n rule: decimalDigits.induct)
  case (1 n)
  show ?case
  proof (cases "n < 10")
    case True
    then show ?thesis
      by (subst decimalDigits.simps) (simp add: digitValue_hexDigit)
  next
    case False
    with 1 show ?thesis
      by (subst decimalDigits.simps) (simp add: digitValue_hexDigit)
  qed
qed

lemma decimalDigits_nonempty: "decimalDigits n \<noteq> []"
  by (subst decimalDigits.simps) simp

lemma radixDigits_decimalDigits_last:
  "10 \<le> n \<Longrightarrow>
     radixDigits 10 (decimalDigits n) = radixDigits 10 (decimalDigits (n div 10)) @ [n mod 10]"
  by (subst decimalDigits.simps)
    (simp add: radixDigits_append [OF decimalDigits_digits] digitValue_hexDigit)

lemma radixDigits_decimalDigits_small:
  "n < 10 \<Longrightarrow> radixDigits 10 (decimalDigits n) = [n]"
  by (subst decimalDigits.simps) (simp add: digitValue_hexDigit)

lemma decimalDigits_value:
  "foldl (\<lambda>m d. m * 10 + d) 0 (radixDigits 10 (decimalDigits n)) = n"
proof (induction n rule: decimalDigits.induct)
  case (1 n)
  show ?case
  proof (cases "n < 10")
    case True
    then show ?thesis by (simp add: radixDigits_decimalDigits_small)
  next
    case False
    with 1 show ?thesis by (simp add: radixDigits_decimalDigits_last)
  qed
qed

lemma decimalDigits_leading:
  "0 < n \<Longrightarrow>
     radixDigits 10 (decimalDigits n) \<noteq> [] \<and> hd (radixDigits 10 (decimalDigits n)) \<noteq> 0"
proof (induction n rule: decimalDigits.induct)
  case (1 n)
  show ?case
  proof (cases "n < 10")
    case True
    with 1(2) show ?thesis by (simp add: radixDigits_decimalDigits_small)
  next
    case False
    then have "0 < n div 10" by simp
    with 1(1) False
    have "radixDigits 10 (decimalDigits (n div 10)) \<noteq> []
        \<and> hd (radixDigits 10 (decimalDigits (n div 10))) \<noteq> 0"
      by simp
    with False show ?thesis by (simp add: radixDigits_decimalDigits_last)
  qed
qed

lemma decimalDigits_no_leading_zero:
  "\<not> (radixDigits 10 (decimalDigits n) = []
      \<or> (length (radixDigits 10 (decimalDigits n)) > 1 \<and> hd (radixDigits 10 (decimalDigits n)) = 0))"
proof (cases "n = 0")
  case True
  then show ?thesis by (simp add: radixDigits_decimalDigits_small)
next
  case False
  then show ?thesis using decimalDigits_leading [of n] by simp
qed

lemma decimalDigits_first:
  "\<exists>c cs d. decimalDigits n = c # cs \<and> digitValue c = Some d"
proof -
  obtain c cs where eq: "decimalDigits n = c # cs"
    using decimalDigits_nonempty [of n] by (cases "decimalDigits n") auto
  with decimalDigits_digits [of n] obtain d where "digitValue c = Some d"
    by auto
  with eq show ?thesis by blast
qed

lemma digit_not_structural:
  "digitValue c = Some d \<Longrightarrow> c \<noteq> CHR ''-'' \<and> c \<noteq> CHR 0x22 \<and> c \<noteq> CHR ''{''"
  by (auto simp add: digitValue_def)

lemma readNumber_decimalDigits:
  assumes "radixDigits 10 rest = []"
  shows "readNumber (decimalDigits m @ rest) = Some (int m, rest)"
proof -
  obtain c cs d where eq: "decimalDigits m = c # cs" and dv: "digitValue c = Some d"
    using decimalDigits_first by blast
  then have neg: "\<not> ((decimalDigits m @ rest) \<noteq> [] \<and> hd (decimalDigits m @ rest) = CHR ''-'')"
    using digit_not_structural [OF dv] by simp
  have Z: "radixDigits 10 (decimalDigits m @ rest) = radixDigits 10 (decimalDigits m)"
    by (simp add: radixDigits_append [OF decimalDigits_digits] assms)
  have len: "length (radixDigits 10 (decimalDigits m)) = length (decimalDigits m)"
    by (rule radixDigits_length [OF decimalDigits_digits])
  show ?thesis
    unfolding readNumber_def Let_def
    using neg decimalDigits_no_leading_zero [of m]
    by (simp only: Z if_False decimalDigits_value len) simp
qed

lemma readNumber_NumberToString:
  assumes "radixDigits 10 rest = []"
  shows "readNumber (NumberToString p @ rest) = Some (p, rest)"
proof (cases "p < 0")
  case True
  let ?m = "nat (- p)"
  have Z: "radixDigits 10 (decimalDigits ?m @ rest) = radixDigits 10 (decimalDigits ?m)"
    by (simp add: radixDigits_append [OF decimalDigits_digits] assms)
  have len: "length (radixDigits 10 (decimalDigits ?m)) = length (decimalDigits ?m)"
    by (rule radixDigits_length [OF decimalDigits_digits])
  have "readNumber (CHR ''-'' # decimalDigits ?m @ rest) = Some (- int ?m, rest)"
    unfolding readNumber_def Let_def
    using decimalDigits_no_leading_zero [of ?m]
    by (simp add: Z decimalDigits_value len)
  with True show ?thesis
    by (simp add: NumberToString_def)
next
  case False
  with readNumber_decimalDigits [OF assms, of "nat p"] show ?thesis
    by (simp add: NumberToString_def)
qed


lemma QuoteJSONString_Cons:
  "QuoteJSONString v @ rest = CHR 0x22 # concat (map QuoteJSONUnit v) @ CHR 0x22 # rest"
  by (simp add: QuoteJSONString_def)

lemma readValue_string:
  "readValue (Suc n) (QuoteJSONString v @ rest) = Some (JSString v, rest)"
  by (simp add: QuoteJSONString_Cons readChars_units)

lemma readValue_number:
  assumes "radixDigits 10 rest = []"
  shows "readValue (Suc n) (NumberToString p @ rest) = Some (JSNumber p, rest)"
proof -
  obtain c cs where eq: "NumberToString p @ rest = c # cs"
    and c: "c \<noteq> CHR 0x22" "c \<noteq> CHR ''{''"
  proof (cases "p < 0")
    case True
    then have "NumberToString p @ rest = CHR ''-'' # decimalDigits (nat (- p)) @ rest"
      by (simp add: NumberToString_def)
    then show ?thesis using that by simp
  next
    case False
    obtain c cs d where "decimalDigits (nat p) = c # cs" and "digitValue c = Some d"
      using decimalDigits_first by blast
    with False have "NumberToString p @ rest = c # cs @ rest" "c \<noteq> CHR 0x22" "c \<noteq> CHR ''{''"
      using digit_not_structural [of c d] by (simp_all add: NumberToString_def)
    then show ?thesis using that by blast
  qed
  have "readValue (Suc n) (c # cs) = map_option (apfst JSNumber) (readNumber (c # cs))"
    using c by simp
  then show ?thesis
    unfolding eq [symmetric] by (simp add: readNumber_NumberToString [OF assms])
qed

lemma readMembers_key:
  "readMembers (Suc n) (QuoteJSONString k @ CHR '':'' # rest) =
     (case readValue n rest of
        None \<Rightarrow> None
      | Some (v, r2) \<Rightarrow>
          if r2 = [] then None
          else if hd r2 = CHR ''}'' then Some ([(k, v)], tl r2)
          else if hd r2 = CHR '','' then map_option (apfst ((#) (k, v))) (readMembers n (tl r2))
          else None)"
  by (simp add: QuoteJSONString_Cons readChars_units)

lemma readMembers_string_more:
  "readMembers (Suc (Suc n)) (QuoteJSONString k @ CHR '':'' # QuoteJSONString v @ CHR '','' # rest) =
     map_option (apfst ((#) (k, JSString v))) (readMembers (Suc n) rest)"
  by (simp add: readMembers_key readValue_string)

lemma readMembers_string_last:
  "readMembers (Suc (Suc n)) (QuoteJSONString k @ CHR '':'' # QuoteJSONString v @ CHR ''}'' # rest) =
     Some ([(k, JSString v)], rest)"
  by (simp add: readMembers_key readValue_string)

lemma readMembers_number_more:
  "readMembers (Suc (Suc n)) (QuoteJSONString k @ CHR '':'' # NumberToString p @ CHR '','' # rest) =
     map_option (apfst ((#) (k, JSNumber p))) (readMembers (Suc n) rest)"
proof -
  have "radixDigits 10 (CHR '','' # rest) = []"
    by (simp add: digitValue_def)
  then show ?thesis
    by (simp add: readMembers_key readValue_number)
qed

lemma readValue_object:
  "readValue (Suc n) (CHR ''{'' # QuoteJSONString k @ rest) =
     map_option (apfst JSObject) (readMembers n (QuoteJSONString k @ rest))"
  by (simp add: QuoteJSONString_def)

lemma readValue_level:
  "readValue (Suc (Suc (Suc (Suc (Suc n)))))
     (CHR ''{'' # QuoteJSONString ''name'' @ CHR '':'' # QuoteJSONString nm @ CHR '','' #
      QuoteJSONString ''priority'' @ CHR '':'' # NumberToString p @ CHR '','' #
      QuoteJSONString ''scope'' @ CHR '':'' # QuoteJSONString sc @ CHR ''}'' # rest) =
   Some (JSObject [(''name'', JSString nm), (''priority'', JSNumber p), (''scope'', JSString sc)],
         rest)"
  by (simp only: readValue_object readMembers_string_more readMembers_number_more
      readMembers_string_last option.map apfst_conv)

lemma formatJson_text:
  "formatJson h level message s =
     CHR ''{'' # QuoteJSONString ''time'' @ CHR '':'' # QuoteJSONString (moment_format h ''HH:mm:ss'')
     @ CHR '','' # QuoteJSONString ''level'' @ CHR '':'' #
       (CHR ''{'' # QuoteJSONString ''name'' @ CHR '':'' # QuoteJSONString (name level) @ CHR '','' #
        QuoteJSONString ''priority'' @ CHR '':'' # NumberToString (priority level) @ CHR '','' #
        QuoteJSONString ''scope'' @ CHR '':'' # QuoteJSONString (LogScope_value (scope level))
        @ CHR ''}'' #
     CHR '','' # QuoteJSONString ''message'' @ CHR '':'' # QuoteJSONString message @ ''}'')"
  by (simp add: formatJson_def LogLevel_object_def)

lemma readValue_formatJson:
  "readValue (Suc (Suc (Suc (Suc (Suc (Suc (Suc (Suc n)))))))) (formatJson h level message s) =
     Some (JSObject
             [(''time'', JSString (moment_format h ''HH:mm:ss'')),
              (''level'',
               JSObject [(''name'', JSString (name level)), (''priority'', JSNumber (priority level)),
                         (''scope'', JSString (LogScope_value (scope level)))]),
              (''message'', JSString message)], [])"
  unfolding formatJson_text
  by (subst readValue_object)
    (simp add: readMembers_string_more readMembers_key [of _ "''level''"]
      readValue_level readMembers_string_last del: readValue.simps readMembers.simps)

lemma formatJson_length: "8 \<le> length (formatJson h level message s)"
  unfolding formatJson_text by (simp add: QuoteJSONString_def)

lemma JSON_parse_formatJson:
  "JSON_parse (formatJson h level message s) =
     Some (JSObject
             [(''time'', JSString (moment_format h ''HH:mm:ss'')),
              (''level'',
               JSObject [(''name'', JSString (name level)), (''priority'', JSNumber (priority level)),
                         (''scope'', JSString (LogScope_value (scope level)))]),
              (''message'', JSString message)])"
proof -
  obtain n where "length (formatJson h level message s) = 8 + n"
    using formatJson_length [of h level message s] le_Suc_ex by blast
  then have "length (formatJson h level message s)
      = Suc (Suc (Suc (Suc (Suc (Suc (Suc (Suc n)))))))"
    by simp
  then show ?thesis
    unfolding JSON_parse_def by (simp only: readValue_formatJson) simp
qed

lemma QuoteJSONUnit_one_line:
  assumes "b = CHR 0x0A \<or> b = CHR 0x0D"
  shows "b \<notin> set (QuoteJSONUnit c)"
proof -
  have "(of_char c :: nat) div 16 < 16"
    by (simp add: less_mult_imp_div_less)
  then have "hexDigit ((of_char c :: nat) div 16) \<noteq> b"
    using hexDigit_printable assms by blast
  moreover have "hexDigit ((of_char c :: nat) mod 16) \<noteq> b"
    using hexDigit_printable [of "(of_char c :: nat) mod 16"] assms by auto
  ultimately show ?thesis
    using assms by (auto simp add: QuoteJSONUnit_def)
qed

lemma QuoteJSONString_one_line:
  assumes "b = CHR 0x0A \<or> b = CHR 0x0D"
  shows "b \<notin> set (QuoteJSONString v)"
  using assms QuoteJSONUnit_one_line [OF assms] by (auto simp add: QuoteJSONString_def)

lemma digitValue_line_break: "digitValue (CHR 0x0A) = None" "digitValue (CHR 0x0D) = None"
  by (simp_all add: digitValue_def)

lemma decimalDigits_one_line:
  assumes "b = CHR 0x0A \<or> b = CHR 0x0D"
  shows "b \<notin> set (decimalDigits m)"
proof
  assume "b \<in> set (decimalDigits m)"
  with decimalDigits_digits [of m] obtain d where "digitValue b = Some d"
    by blast
  with assms digitValue_line_break show False
    by auto
qed

lemma NumberToString_one_line:
  assumes "b = CHR 0x0A \<or> b = CHR 0x0D"
  shows "b \<notin> set (NumberToString p)"
proof -
  have "b \<noteq> CHR ''-''"
    using assms by auto
  then show ?thesis
    using decimalDigits_one_line [OF assms] by (simp add: NumberToString_def)
qed

lemma formatJson_one_line:
  assumes "b = CHR 0x0A \<or> b = CHR 0x0D"
  shows "b \<notin> set (formatJson h level message s)"
proof -
  have "b \<noteq> CHR ''{''" "b \<noteq> CHR ''}''" "b \<noteq> CHR '':''" "b \<noteq> CHR '',''"
    using assms by auto
  then show ?thesis
    unfolding formatJson_text
    by (simp add: QuoteJSONString_one_line [OF assms] NumberToString_one_line [OF assms])
qed

lemma formatJson_sample:
  "formatJson \<lparr>moment_format = (\<lambda>p. ''12:00:01''), chalk = curry snd\<rparr> (logLevels ! 0) ''hello'' s
     = ''{\"time\":\"12:00:01\",\"level\":{\"name\":\"error\",\"priority\":0,\"scope\":\"stderr\"},\"message\":\"hello\"}''"
  by (simp add: formatJson_def LogLevel_object_def logLevels_nth QuoteJSONString_def
      QuoteJSONUnit_def NumberToString_def decimalDigits.simps hexDigit_def)

text \<open>
  Claim C7. For every level and message the text of \<open>formatJson\<close> has no line feed and no
  carriage return, and it reads back as JSON to an object with exactly the keys \<open>time\<close>,
  \<open>level\<close> and \<open>message\<close>, in that order: \<open>time\<close> is what moment renders for the fixed
  pattern \<open>HH:mm:ss\<close>, whatever the time format of the logger; \<open>level\<close> is an object
  with exactly the keys \<open>name\<close>, \<open>priority\<close> and \<open>scope\<close> of the level, its chalk function
  being left out by \<open>JSON.stringify\<close>; \<open>message\<close> is the message, unchanged.
\<close>

theorem formatJson_record:
  "JSON_parse (formatJson h level message s) =
     Some (JSObject
             [(''time'', JSString (moment_format h ''HH:mm:ss'')),
              (''level'',
               JSObject [(''name'', JSString (name level)), (''priority'', JSNumber (priority level)),
                         (''scope'', JSString (LogScope_value (scope level)))]),
              (''message'', JSString message)])
   \<and> CHR 0x0A \<notin> set (formatJson h level message s)
   \<and> CHR 0x0D \<notin> set (formatJson h level message s)"
  by (simp add: JSON_parse_formatJson formatJson_one_line)

text \<open>
  Claim C8. Two states that differ only in the time format give the same text of
  \<open>formatJson\<close> for the same level, message and instant; \<open>setTimeFormat\<close> has no effect
  on it. The line of \<open>format\<close> carries the time rendered in the format that was set, and
  it stays the same under a change of the format exactly when the styled rendering of the
  time does.
\<close>

theorem timeFormat_independence:
  "formatJson h level message (s\<lparr>timeFormat := fmt\<rparr>) = formatJson h level message s
   \<and> formatJson h level message (setTimeFormat fmt s) = formatJson h level message s
   \<and> format h level message False (setTimeFormat fmt s)
       = ''['' @ chalk h [Gray] (moment_format h fmt) @ ''] '' @ format h level message True s
   \<and> (format h level message False (setTimeFormat fmt s) = format h level message False s
        \<longleftrightarrow> chalk h [Gray] (moment_format h fmt) = chalk h [Gray] (moment_format h (timeFormat s)))"
  by (simp add: formatJson_def format_def setTimeFormat_def Let_def)

theorem timeFormat_independence_witness:
  "formatJson \<lparr>moment_format = id, chalk = curry snd\<rparr> (logLevels ! 2) ''ready''
       (setTimeFormat ''HH:mm''
          \<lparr>stdout = [], stderr = [], logLevel = logLevels ! 2, timeFormat = ''HH:mm:ss''\<rparr>)
     = formatJson \<lparr>moment_format = id, chalk = curry snd\<rparr> (logLevels ! 2) ''ready''
         \<lparr>stdout = [], stderr = [], logLevel = logLevels ! 2, timeFormat = ''HH:mm:ss''\<rparr>
   \<and> format \<lparr>moment_format = id, chalk = curry snd\<rparr> (logLevels ! 2) ''ready'' False
       (setTimeFormat ''HH:mm''
          \<lparr>stdout = [], stderr = [], logLevel = logLevels ! 2, timeFormat = ''HH:mm:ss''\<rparr>)
     = ''[HH:mm] INFO ready''
   \<and> format \<lparr>moment_format = id, chalk = curry snd\<rparr> (logLevels ! 2) ''ready'' False
       (setTimeFormat ''HH:mm''
          \<lparr>stdout = [], stderr = [], logLevel = logLevels ! 2, timeFormat = ''HH:mm:ss''\<rparr>)
     \<noteq> format \<lparr>moment_format = id, chalk = curry snd\<rparr> (logLevels ! 2) ''ready'' False
         \<lparr>stdout = [], stderr = [], logLevel = logLevels ! 2, timeFormat = ''HH:mm:ss''\<rparr>"
proof -
  let ?h = "\<lparr>moment_format = id, chalk = curry snd\<rparr>"
  let ?s = "\<lparr>stdout = [], stderr = [], logLevel = logLevels ! 2, timeFormat = ''HH:mm:ss''\<rparr>"
  note t = timeFormat_independence [where h = ?h and level = "logLevels ! 2"
      and message = "''ready''" and s = ?s and fmt = "''HH:mm''"]
  have "chalk ?h [Gray] (moment_format ?h ''HH:mm'')
      \<noteq> chalk ?h [Gray] (moment_format ?h (timeFormat ?s))"
    by simp
  with t have "format ?h (logLevels ! 2) ''ready'' False (setTimeFormat ''HH:mm'' ?s)
      \<noteq> format ?h (logLevels ! 2) ''ready'' False ?s"
    by blast
  moreover from t have "formatJson ?h (logLevels ! 2) ''ready'' (setTimeFormat ''HH:mm'' ?s)
      = formatJson ?h (logLevels ! 2) ''ready'' ?s"
    by blast
  moreover have "format ?h (logLevels ! 2) ''ready'' True ?s = ''INFO ready''"
    by (simp add: format_def Let_def logLevels_nth toUpperCase_def toUpperCase_unit_def)
  with t have "format ?h (logLevels ! 2) ''ready'' False (setTimeFormat ''HH:mm'' ?s)
      = ''[HH:mm] INFO ready''"
    by simp
  ultimately show ?thesis by blast
qed

end
